theory Spec2Isabelle
  imports Complex_Main "HOL-Library.Multiset"
begin

section \<open>Conventions of the embedding\<close>

text \<open>
  The repository is a Python research pipeline (training, Grad-CAM, reporting).
  Its functions are embedded as HOL functions:
  \<^item> a Python exception is a value \<open>Inl e\<close> of the sum type \<open>py_error + 'a\<close>;
  \<^item> a Python \<open>float\<close> (and a NumPy floating-point element) is a \<open>real\<close>: arithmetic
    is exact, so rounding, NaN and the infinities of IEEE 754 are outside the model;
  \<^item> a Python \<open>int\<close> that counts something is a \<open>nat\<close>;
  \<^item> a \<open>dict\<close> is an association list (insertion order is kept, as in Python) and is
    read with \<open>map_of\<close>;
  \<^item> a function that ends in a bare \<open>return\<close> yields Python's \<open>None\<close>, the value
    \<open>None\<close> of an option type.
\<close>

datatype py_error =
  ValueError | ZeroDivisionError | KeyError | IndexError | FileExistsError | TypeError

section \<open>train.py: class weights\<close>









section \<open>visualization.py: rounding prediction scores to class indices\<close>




text \<open>Python's \<open>str\<close> of an integer, and indexing of a list (a negative index counts from the end).\<close>

fun str_nat :: "nat \<Rightarrow> string" where
  "str_nat n =
     (if n < 10 then [''0123456789'' ! n]
      else str_nat (n div 10) @ [''0123456789'' ! (n mod 10)])"

declare str_nat.simps [simp del]







section \<open>gradcam.py: the classical Grad-CAM heatmap\<close>

text \<open>
  A feature map of shape \<open>(batch, height, width, channels)\<close> is a four-fold nested list,
  a raw heatmap of shape \<open>(batch, height, width)\<close> a three-fold one. The model's forward
  pass and TensorFlow's automatic differentiation (\<open>tape.gradient\<close>) are not code of the
  repository: they are parameters of the embedding.
\<close>

type_synonym feature_map = "real list list list list"

type_synonym heatmap = "real list list list"

definition np_argmax :: "real list \<Rightarrow> nat" where
  "np_argmax xs = length (takeWhile (\<lambda>x. x \<noteq> Max (set xs)) xs)"

definition mean_axes_012 :: "feature_map \<Rightarrow> real list" where
  "mean_axes_012 t =
     (let cells = concat (concat t)
      in case cells of
           [] \<Rightarrow> []
         | v # _ \<Rightarrow> map (\<lambda>c. sum_list (map (\<lambda>u. u ! c) cells) / real (length cells))
                       [0..<length v])"

definition reduce_mean_last :: "feature_map \<Rightarrow> heatmap" where
  "reduce_mean_last t = map (map (map (\<lambda>v. sum_list v / real (length v)))) t"

definition multiply_channels :: "real list \<Rightarrow> feature_map \<Rightarrow> feature_map" where
  "multiply_channels w t = map (map (map (\<lambda>v. map2 (*) w v))) t"

text \<open>
  \<^verbatim>\<open>
  with tf.GradientTape() as tape:
      model_out, last_conv_layer = model(img)
      class_out = tf.math.maximum(1 - model_out[:, np.argmax(model_out[0])], model_out[:, np.argmax(model_out[0])])
      grads = tape.gradient(class_out, last_conv_layer)
      pooled_grads = tf.keras.backend.mean(grads, axis=(0, 1, 2))

  heatmap = tf.reduce_mean(tf.multiply(pooled_grads, last_conv_layer), axis=-1)

  return
  \<close>
  The value \<open>heatmap\<close> is computed by \<open>gradcam_heatmap_value\<close>; the function itself ends
  in a bare \<open>return\<close>, so its result is Python's \<open>None\<close> whatever was computed. An empty
  batch fails at \<open>model_out[0]\<close>.
\<close>

definition gradcam_heatmap_value ::
    "('img \<Rightarrow> real list list \<times> feature_map) \<Rightarrow> (real list \<Rightarrow> feature_map \<Rightarrow> feature_map) \<Rightarrow>
     'img \<Rightarrow> heatmap" where
  "gradcam_heatmap_value model tape_gradient img =
     (let (model_out, last_conv_layer) = model img;
          k = np_argmax (model_out ! 0);
          class_out = map (\<lambda>row. max (1 - row ! k) (row ! k)) model_out;
          grads = tape_gradient class_out last_conv_layer;
          pooled_grads = mean_axes_012 grads;
          heatmap = reduce_mean_last (multiply_channels pooled_grads last_conv_layer)
      in heatmap)"

definition get_gradcam_heatmap ::
    "('img \<Rightarrow> real list list \<times> feature_map) \<Rightarrow> (real list \<Rightarrow> feature_map \<Rightarrow> feature_map) \<Rightarrow>
     'img \<Rightarrow> py_error + heatmap option" where
  "get_gradcam_heatmap model tape_gradient img =
     (if fst (model img) = [] then Inl IndexError
      else let heatmap = gradcam_heatmap_value model tape_gradient img
           in Inr None)"

text \<open>
  Claim C3 says that \<open>get_gradcam_heatmap\<close> returns the computed heatmap. The code does
  not: no call yields a heatmap. For a one-image batch with scores \<open>[0.2, 0.8]\<close>, a
  \<open>1 \<times> 1\<close> feature map with channels \<open>[1, 2]\<close> and gradients \<open>[3, 5]\<close>, the computed value
  is \<open>[[[6.5]]]\<close> (the mean over the channels of \<open>[3 * 1, 5 * 2]\<close>, not their sum) and the
  result is \<open>None\<close>.
\<close>

theorem get_gradcam_heatmap_returns_none:
  "(\<forall>h. get_gradcam_heatmap model tape_gradient img \<noteq> Inr (Some h))
   \<and> gradcam_heatmap_value (\<lambda>_. ([[0.2, 0.8]], [[[[1, 2]]]])) (\<lambda>_ _. [[[[3, 5]]]]) () = [[[6.5]]]
   \<and> get_gradcam_heatmap (\<lambda>_. ([[0.2, 0.8]], [[[[1, 2]]]])) (\<lambda>_ _. [[[[3, 5]]]]) () = Inr None"
  by (simp add: get_gradcam_heatmap_def gradcam_heatmap_value_def Let_def np_argmax_def
      mean_axes_012_def reduce_mean_last_def multiply_channels_def)

section \<open>gradcam.py: post-processing of the raw heatmap\<close>











lemma relu_all_zero:
  assumes "xs \<noteq> []" and "Max (set xs) \<le> 0"
  shows "map (\<lambda>v. max v 0) xs = map (\<lambda>v. 0) xs"
proof -
  have "\<And>x. x \<in> set xs \<Longrightarrow> x \<le> 0"
    using assms by (meson List.finite_set Max_ge order_trans)
  then show ?thesis by (auto simp: max_def)
qed








section \<open>train.py: partitioning the frame table by patient\<close>

text \<open>
  A row of the frame table (\<open>PATHS.FRAMES_TABLE\<close>); the type of patient identifiers is
  left open. \<open>Series.unique()\<close> of pandas keeps the first occurrence of every value, in
  order of appearance.
\<close>

record 'p frame_row =
  Frame_Path :: string
  Class :: nat
  Class_Name :: string
  Patient :: 'p

definition unique :: "'a list \<Rightarrow> 'a list" where
  "unique xs = rev (remdups (rev xs))"

text \<open>
  \<open>sklearn.model_selection.train_test_split\<close> is a function of scikit-learn, called here
  with a float \<open>test_size\<close> and a fixed \<open>random_state\<close>. Its behaviour is taken from the
  library: a \<open>test_size\<close> outside the open interval \<open>(0, 1)\<close> is rejected, the test part
  has \<open>ceil(test_size * n)\<close> elements and the train part the other ones, an empty train
  part is rejected, and the elements are drawn along a random permutation of
  \<open>range(n)\<close>: the test part takes its first \<open>n_test\<close> indices, the train part the
  following \<open>n_train\<close>. The permutation that the seeded generator produces for \<open>n\<close>
  samples is the parameter \<open>permutation\<close>.
\<close>

definition train_test_split ::
    "(nat \<Rightarrow> nat list) \<Rightarrow> 'a list \<Rightarrow> real \<Rightarrow> py_error + 'a list \<times> 'a list" where
  "train_test_split permutation arr test_size =
     (let n_samples = length arr
      in if test_size \<le> 0 \<or> 1 \<le> test_size then Inl ValueError
         else let n_test = nat \<lceil>test_size * real n_samples\<rceil>;
                  n_train = n_samples - n_test
              in if n_train = 0 then Inl ValueError
                 else let p = permutation n_samples
                      in Inr (map ((!) arr) (take n_train (drop n_test p)),
                              map ((!) arr) (take n_test p)))"

text \<open>
  \<open>Series.str.rsplit('_', 1, expand=True)[0]\<close>: the part of the string before its last
  underscore, the whole string when it has none.
\<close>

definition rsplit_first :: "string \<Rightarrow> string" where
  "rsplit_first s =
     (if CHR ''_'' \<in> set s then rev (tl (dropWhile (\<lambda>c. c \<noteq> CHR ''_'') (rev s))) else s)"

definition add_clip :: "'p frame_row \<Rightarrow> 'p frame_row \<times> string" where
  "add_clip r = (r, rsplit_first (Frame_Path r))"

definition relative_val_split :: "real \<Rightarrow> real \<Rightarrow> real" where
  "relative_val_split val_split test_split = val_split / (1 - test_split)"

text \<open>
  \<^verbatim>\<open>
  frame_df = pd.read_csv(cfg['PATHS']['FRAMES_TABLE'])
  all_pts = frame_df['Patient'].unique()  # Get list of patients
  relative_val_split = val_split / (1 - (test_split))
  random_state = cfg['TRAIN']['RANDOM_STATE']
  trainval_pts, test_pts = train_test_split(all_pts, test_size=test_split, random_state=random_state)
  train_pts, val_pts = train_test_split(trainval_pts, test_size=relative_val_split, random_state=random_state)

  train_df_frames = frame_df[frame_df['Patient'].isin(train_pts)]
  val_df_frames = frame_df[frame_df['Patient'].isin(val_pts)]
  test_df_frames = frame_df[frame_df['Patient'].isin(test_pts)]

  train_df_frames['Clip'] = train_df_frames['Frame Path'].str.rsplit('_', 1, expand=True)[0]
  ...
  if save_dfs:
      partition_dir = os.path.join(cfg['PATHS']['PARTITIONS_DIR'], CUR_DATETIME)
      os.makedirs(partition_dir)
      ...
  return train_df_frames, val_df_frames, test_df_frames
  \<close>
  The frame table read from disk, the permutations of the seeded generator and whether
  the partition directory already exists are the environment of the call. A returned
  row is the original row with its \<open>Clip\<close> column. The clip-level tables are only printed
  and written to disk; they are not part of the result and are not modelled. Python's
  float division raises \<open>ZeroDivisionError\<close> for \<open>test_split = 1\<close>, and \<open>os.makedirs\<close>
  raises \<open>FileExistsError\<close> for a directory that exists.
\<close>

definition partition_dataset ::
    "(nat \<Rightarrow> nat list) \<Rightarrow> 'p frame_row list \<Rightarrow> bool \<Rightarrow> real \<Rightarrow> real \<Rightarrow> bool \<Rightarrow>
     py_error + ('p frame_row \<times> string) list \<times> ('p frame_row \<times> string) list \<times>
                ('p frame_row \<times> string) list" where
  "partition_dataset permutation frame_df partition_dir_exists val_split test_split save_dfs =
     (let all_pts = unique (map Patient frame_df)
      in if 1 - test_split = 0 then Inl ZeroDivisionError
         else case train_test_split permutation all_pts test_split of
                Inl e \<Rightarrow> Inl e
              | Inr (trainval_pts, test_pts) \<Rightarrow>
                  (case train_test_split permutation trainval_pts
                          (relative_val_split val_split test_split) of
                     Inl e \<Rightarrow> Inl e
                   | Inr (train_pts, val_pts) \<Rightarrow>
                       (let train_df_frames = filter (\<lambda>r. Patient r \<in> set train_pts) frame_df;
                            val_df_frames = filter (\<lambda>r. Patient r \<in> set val_pts) frame_df;
                            test_df_frames = filter (\<lambda>r. Patient r \<in> set test_pts) frame_df
                        in if save_dfs \<and> partition_dir_exists then Inl FileExistsError
                           else Inr (map add_clip train_df_frames,
                                     map add_clip val_df_frames,
                                     map add_clip test_df_frames))))"



lemma distinct_unique: "distinct (unique xs)"
  by (simp add: unique_def)

lemma set_unique: "set (unique xs) = set xs"
  by (simp add: unique_def)

lemma train_test_split_sizes:
  assumes "train_test_split permutation arr test_size = Inr (tr, te)"
  shows "0 < test_size \<and> test_size < 1
       \<and> nat \<lceil>test_size * real (length arr)\<rceil> < length arr
       \<and> tr = map ((!) arr) (take (length arr - nat \<lceil>test_size * real (length arr)\<rceil>)
                 (drop (nat \<lceil>test_size * real (length arr)\<rceil>) (permutation (length arr))))
       \<and> te = map ((!) arr) (take (nat \<lceil>test_size * real (length arr)\<rceil>)
                 (permutation (length arr)))"
  using assms by (auto simp: train_test_split_def Let_def split: if_splits)

lemma train_test_split_mset:
  assumes perm: "mset (permutation (length arr)) = mset [0..<length arr]"
    and split: "train_test_split permutation arr test_size = Inr (tr, te)"
  shows "mset te + mset tr = mset arr"
proof -
  let ?n = "length arr"
  let ?k = "nat \<lceil>test_size * real ?n\<rceil>"
  let ?p = "permutation ?n"
  have len: "length ?p = ?n"
    using perm by (metis length_upt mset_eq_length minus_nat.diff_0)
  from train_test_split_sizes [OF split]
  have tr: "tr = map ((!) arr) (take (?n - ?k) (drop ?k ?p))"
    and te: "te = map ((!) arr) (take ?k ?p)" by simp_all
  have "take (?n - ?k) (drop ?k ?p) = drop ?k ?p"
    using len by simp
  with tr te have "te @ tr = map ((!) arr) ?p"
    by (simp flip: map_append)
  then have "mset te + mset tr = image_mset ((!) arr) (mset ?p)"
    by (metis mset_append mset_map)
  also have "\<dots> = mset (map ((!) arr) [0..<?n])"
    by (simp add: perm)
  also have "\<dots> = mset arr"
    by (simp add: map_nth)
  finally show ?thesis .
qed


lemma train_test_split_distinct:
  assumes perm: "mset (permutation (length arr)) = mset [0..<length arr]"
    and split: "train_test_split permutation arr test_size = Inr (tr, te)"
    and d: "distinct arr"
  shows "distinct tr \<and> distinct te \<and> set tr \<inter> set te = {} \<and> set tr \<union> set te = set arr"
proof -
  have m: "mset (te @ tr) = mset arr"
    using train_test_split_mset [OF perm split] by simp
  then have "distinct (te @ tr)"
    using d by (metis mset_eq_imp_distinct_iff)
  moreover have "set (te @ tr) = set arr"
    using m by (rule mset_eq_setD)
  ultimately show ?thesis by auto
qed

lemma filter_three_way:
  assumes "\<And>x. x \<in> set xs \<Longrightarrow> (P x \<and> \<not> Q x \<and> \<not> R x) \<or> (\<not> P x \<and> Q x \<and> \<not> R x) \<or> (\<not> P x \<and> \<not> Q x \<and> R x)"
  shows "mset (filter P xs) + mset (filter Q xs) + mset (filter R xs) = mset xs"
  using assms by (induction xs) (auto simp: add_mset_commute)


lemma partition_dataset_Inr:
  assumes "partition_dataset permutation frame_df ex val_split test_split save_dfs
             = Inr (train, val, test)"
  obtains trainval_pts test_pts train_pts val_pts where
    "test_split \<noteq> 1"
    "train_test_split permutation (unique (map Patient frame_df)) test_split
       = Inr (trainval_pts, test_pts)"
    "train_test_split permutation trainval_pts (relative_val_split val_split test_split)
       = Inr (train_pts, val_pts)"
    "train = map add_clip (filter (\<lambda>r. Patient r \<in> set train_pts) frame_df)"
    "val = map add_clip (filter (\<lambda>r. Patient r \<in> set val_pts) frame_df)"
    "test = map add_clip (filter (\<lambda>r. Patient r \<in> set test_pts) frame_df)"
  using assms
  by (auto simp: partition_dataset_def Let_def split: if_splits sum.splits prod.splits)

lemma fst_add_clip: "map fst (map add_clip xs) = xs"
  by (induction xs) (simp_all add: add_clip_def)

lemma patients_of_filter:
  assumes "set pts \<subseteq> Patient ` set frame_df"
  shows "Patient ` fst ` set (map add_clip (filter (\<lambda>r. Patient r \<in> set pts) frame_df)) = set pts"
proof -
  have "fst ` set (map add_clip (filter (\<lambda>r. Patient r \<in> set pts) frame_df))
        = set (filter (\<lambda>r. Patient r \<in> set pts) frame_df)"
    by (metis fst_add_clip list.set_map)
  then show ?thesis using assms by auto
qed

lemma partition_dataset_parts:
  assumes perm: "\<forall>n. mset (permutation n) = mset [0..<n]"
    and ok: "partition_dataset permutation frame_df ex val_split test_split save_dfs
             = Inr (train, val, test)"
  obtains trainval_pts test_pts train_pts val_pts where
    "train_test_split permutation (unique (map Patient frame_df)) test_split
       = Inr (trainval_pts, test_pts)"
    "train_test_split permutation trainval_pts (relative_val_split val_split test_split)
       = Inr (train_pts, val_pts)"
    "distinct train_pts" "distinct val_pts" "distinct test_pts"
    "set train_pts \<inter> set val_pts = {}" "set train_pts \<inter> set test_pts = {}"
    "set val_pts \<inter> set test_pts = {}"
    "set train_pts \<union> set val_pts \<union> set test_pts = Patient ` set frame_df"
    "train = map add_clip (filter (\<lambda>r. Patient r \<in> set train_pts) frame_df)"
    "val = map add_clip (filter (\<lambda>r. Patient r \<in> set val_pts) frame_df)"
    "test = map add_clip (filter (\<lambda>r. Patient r \<in> set test_pts) frame_df)"
proof -
  from ok obtain trainval_pts test_pts train_pts val_pts where
    s1: "train_test_split permutation (unique (map Patient frame_df)) test_split
       = Inr (trainval_pts, test_pts)"
    and s2: "train_test_split permutation trainval_pts (relative_val_split val_split test_split)
       = Inr (train_pts, val_pts)"
    and r: "train = map add_clip (filter (\<lambda>r. Patient r \<in> set train_pts) frame_df)"
      "val = map add_clip (filter (\<lambda>r. Patient r \<in> set val_pts) frame_df)"
      "test = map add_clip (filter (\<lambda>r. Patient r \<in> set test_pts) frame_df)"
    by (rule partition_dataset_Inr)
  have p1: "mset (permutation (length (unique (map Patient frame_df))))
      = mset [0..<length (unique (map Patient frame_df))]"
    and p2: "mset (permutation (length trainval_pts)) = mset [0..<length trainval_pts]"
    using perm by simp_all
  from train_test_split_distinct [OF p1 s1 distinct_unique]
  have d1: "distinct trainval_pts" "distinct test_pts" "set trainval_pts \<inter> set test_pts = {}"
    "set trainval_pts \<union> set test_pts = Patient ` set frame_df"
    by (simp_all add: set_unique)
  from train_test_split_distinct [OF p2 s2 d1(1)]
  have d2: "distinct train_pts" "distinct val_pts" "set train_pts \<inter> set val_pts = {}"
    "set train_pts \<union> set val_pts = set trainval_pts"
    by simp_all
  have "set train_pts \<inter> set test_pts = {}" "set val_pts \<inter> set test_pts = {}"
    "set train_pts \<union> set val_pts \<union> set test_pts = Patient ` set frame_df"
    using d1 d2 by auto
  with s1 s2 r d1 d2 show thesis
    by (intro that)
qed

text \<open>
  Claim C1. Whenever \<open>partition_dataset\<close> returns its three frame-level partitions
  (the generator's permutations being permutations of \<open>range(n)\<close>), the sets of patient
  identifiers of the train, validation and test partitions are pairwise disjoint, and
  the rows of the three partitions together are exactly the rows of the frame table,
  each with its multiplicity: every row of the table is in exactly one partition.
\<close>

theorem partition_dataset_no_patient_leakage:
  assumes perm: "\<forall>n. mset (permutation n) = mset [0..<n]"
    and ok: "partition_dataset permutation frame_df ex val_split test_split save_dfs
             = Inr (train, val, test)"
  shows "Patient ` fst ` set train \<inter> Patient ` fst ` set val = {}
       \<and> Patient ` fst ` set train \<inter> Patient ` fst ` set test = {}
       \<and> Patient ` fst ` set val \<inter> Patient ` fst ` set test = {}
       \<and> mset (map fst train) + mset (map fst val) + mset (map fst test) = mset frame_df"
proof -
  from perm ok obtain trainval_pts test_pts train_pts val_pts where
    dj: "set train_pts \<inter> set val_pts = {}" "set train_pts \<inter> set test_pts = {}"
      "set val_pts \<inter> set test_pts = {}"
    and un: "set train_pts \<union> set val_pts \<union> set test_pts = Patient ` set frame_df"
    and r: "train = map add_clip (filter (\<lambda>r. Patient r \<in> set train_pts) frame_df)"
      "val = map add_clip (filter (\<lambda>r. Patient r \<in> set val_pts) frame_df)"
      "test = map add_clip (filter (\<lambda>r. Patient r \<in> set test_pts) frame_df)"
    by (rule partition_dataset_parts)
  have sub: "set train_pts \<subseteq> Patient ` set frame_df" "set val_pts \<subseteq> Patient ` set frame_df"
    "set test_pts \<subseteq> Patient ` set frame_df"
    using un by auto
  have pts: "Patient ` fst ` set train = set train_pts" "Patient ` fst ` set val = set val_pts"
    "Patient ` fst ` set test = set test_pts"
    unfolding r using sub by (simp_all only: patients_of_filter)
  have "\<And>x. x \<in> set frame_df \<Longrightarrow>
      (Patient x \<in> set train_pts \<and> Patient x \<notin> set val_pts \<and> Patient x \<notin> set test_pts)
    \<or> (Patient x \<notin> set train_pts \<and> Patient x \<in> set val_pts \<and> Patient x \<notin> set test_pts)
    \<or> (Patient x \<notin> set train_pts \<and> Patient x \<notin> set val_pts \<and> Patient x \<in> set test_pts)"
    using dj un by blast
  then have "mset (filter (\<lambda>r. Patient r \<in> set train_pts) frame_df)
      + mset (filter (\<lambda>r. Patient r \<in> set val_pts) frame_df)
      + mset (filter (\<lambda>r. Patient r \<in> set test_pts) frame_df) = mset frame_df"
    by (rule filter_three_way)
  then have "mset (map fst train) + mset (map fst val) + mset (map fst test) = mset frame_df"
    unfolding r fst_add_clip .
  with pts dj show ?thesis by simp
qed


text \<open>A frame table of six frames of five patients, used to instantiate the theorems.\<close>

definition example_frame_df :: "nat frame_row list" where
  "example_frame_df =
     [\<lparr>Frame_Path = ''p1_clip1_0001.jpg'', Class = 0, Class_Name = ''pleural'', Patient = 1\<rparr>,
      \<lparr>Frame_Path = ''p1_clip1_0002.jpg'', Class = 0, Class_Name = ''pleural'', Patient = 1\<rparr>,
      \<lparr>Frame_Path = ''p2_clip1_0001.jpg'', Class = 1, Class_Name = ''parenchymal'', Patient = 2\<rparr>,
      \<lparr>Frame_Path = ''p3_clip1_0001.jpg'', Class = 0, Class_Name = ''pleural'', Patient = 3\<rparr>,
      \<lparr>Frame_Path = ''p4_clip1_0001.jpg'', Class = 1, Class_Name = ''parenchymal'', Patient = 4\<rparr>,
      \<lparr>Frame_Path = ''p5_clip1_0001.jpg'', Class = 0, Class_Name = ''pleural'', Patient = 5\<rparr>]"

lemma example_partition:
  "\<exists>train val test.
     partition_dataset (\<lambda>n. rev [0..<n]) example_frame_df False 0.2 0.2 True = Inr (train, val, test)
     \<and> map (Patient \<circ> fst) train = [2, 3, 4]
     \<and> map (Patient \<circ> fst) val = [1, 1]
     \<and> map (Patient \<circ> fst) test = [5]"
  by (simp add: partition_dataset_def example_frame_df_def unique_def train_test_split_def
      relative_val_split_def Let_def add_clip_def)

theorem partition_dataset_no_patient_leakage_witness:
  "(\<forall>n. mset (rev [0..<n]) = mset [0..<n])
   \<and> (\<exists>train val test.
     partition_dataset (\<lambda>n. rev [0..<n]) example_frame_df False 0.2 0.2 True = Inr (train, val, test)
     \<and> map (Patient \<circ> fst) train = [2, 3, 4]
     \<and> map (Patient \<circ> fst) val = [1, 1]
     \<and> map (Patient \<circ> fst) test = [5]
     \<and> Patient ` fst ` set train \<inter> Patient ` fst ` set val = {}
     \<and> Patient ` fst ` set train \<inter> Patient ` fst ` set test = {}
     \<and> Patient ` fst ` set val \<inter> Patient ` fst ` set test = {}
     \<and> mset (map fst train) + mset (map fst val) + mset (map fst test) = mset example_frame_df)"
proof -
  have perm: "\<forall>n. mset (rev [0..<n]) = mset [0..<n]"
    by simp
  from example_partition obtain train val test where
    ok: "partition_dataset (\<lambda>n. rev [0..<n]) example_frame_df False 0.2 0.2 True
           = Inr (train, val, test)"
    and pts: "map (Patient \<circ> fst) train = [2, 3, 4]" "map (Patient \<circ> fst) val = [1, 1]"
      "map (Patient \<circ> fst) test = [5]"
    by (elim exE conjE)
  from partition_dataset_no_patient_leakage [OF perm ok] ok pts perm show ?thesis
    by (intro conjI exI [of _ train] exI [of _ val] exI [of _ test]) simp_all
qed









section \<open>preprocessor.py: the augmentation stage\<close>

text \<open>
  A batch of images is a tensor of shape \<open>(N, height, width, channels)\<close>, a four-fold
  nested list; \<open>shape_of\<close> is its nesting structure (how many images, rows per image,
  pixels per row, channels per pixel), so two batches of equal \<open>shape_of\<close> have the same
  number of images and the same spatial dimensions.
\<close>

type_synonym image_batch = "real list list list list"

definition shape_of :: "image_batch \<Rightarrow> nat list list list" where
  "shape_of t = map (map (map length)) t"

text \<open>
  \<open>tf.image.stateless_random_brightness(image, max_delta, seed)\<close> is a function of
  TensorFlow: it rejects a negative \<open>max_delta\<close>, draws \<open>delta\<close> uniformly from
  \<open>[-max_delta, max_delta)\<close> as a function of the seed alone, and adds \<open>delta\<close> to every
  component of a floating-point image. The stateless uniform generator, which maps a
  seed pair to a number in \<open>[0, 1)\<close>, is the parameter \<open>uniform\<close>.
\<close>

definition stateless_random_brightness ::
    "(int \<times> int \<Rightarrow> real) \<Rightarrow> image_batch \<Rightarrow> real \<Rightarrow> int \<times> int \<Rightarrow> py_error + image_batch" where
  "stateless_random_brightness uniform img max_delta seed =
     (if max_delta < 0 then Inl ValueError
      else let delta = - max_delta + uniform seed * (max_delta - (- max_delta))
           in Inr (map (map (map (map (\<lambda>v. v + delta)))) img))"

text \<open>
  \<^verbatim>\<open>
  def call(self, image):
      return tf.image.stateless_random_brightness(image, self.factor, (123, 0))
  \<close>
  The layer is called with the state \<open>g\<close> of TensorFlow's global random generator around
  it, which the other random layers of the pipeline draw from; the call neither reads
  nor advances it.
\<close>

definition RandomBrightness_call ::
    "(int \<times> int \<Rightarrow> real) \<Rightarrow> real \<Rightarrow> 'g \<Rightarrow> image_batch \<Rightarrow> py_error + image_batch \<times> 'g" where
  "RandomBrightness_call uniform factor g img =
     (case stateless_random_brightness uniform img factor (123, 0) of
        Inl e \<Rightarrow> Inl e
      | Inr out \<Rightarrow> Inr (out, g))"

text \<open>
  The other four layers of the pipeline (\<open>RandomContrast\<close>, \<open>RandomFlip\<close>,
  \<open>RandomRotation\<close>, \<open>RandomZoom\<close>) are Keras layers: each is a parameter, a function
  from the generator state and a batch to a batch and the next generator state.
  \<^verbatim>\<open>
  self.data_augmentation = tf.keras.Sequential([
      RandomBrightness(factor=cfg['TRAIN']['DATA_AUG']['BRIGHTNESS_RANGE']),
      RandomContrast(cfg['TRAIN']['DATA_AUG']['CONTRAST_RANGE']),
      RandomFlip("horizontal"),
      RandomRotation(cfg['TRAIN']['DATA_AUG']['ROTATION_RANGE'], fill_mode='constant'),
      RandomZoom(cfg['TRAIN']['DATA_AUG']['ZOOM_RANGE'], fill_mode='constant')
  ])
  \<close>
\<close>

record 'g keras_layers =
  RandomContrast :: "'g \<Rightarrow> image_batch \<Rightarrow> image_batch \<times> 'g"
  RandomFlip :: "'g \<Rightarrow> image_batch \<Rightarrow> image_batch \<times> 'g"
  RandomRotation :: "'g \<Rightarrow> image_batch \<Rightarrow> image_batch \<times> 'g"
  RandomZoom :: "'g \<Rightarrow> image_batch \<Rightarrow> image_batch \<times> 'g"

definition data_augmentation ::
    "(int \<times> int \<Rightarrow> real) \<Rightarrow> real \<Rightarrow> 'g keras_layers \<Rightarrow> 'g \<Rightarrow> image_batch \<Rightarrow>
     py_error + image_batch \<times> 'g" where
  "data_augmentation uniform factor layers g x =
     (case RandomBrightness_call uniform factor g x of
        Inl e \<Rightarrow> Inl e
      | Inr (x1, g1) \<Rightarrow>
          (let (x2, g2) = RandomContrast layers g1 x1;
               (x3, g3) = RandomFlip layers g2 x2;
               (x4, g4) = RandomRotation layers g3 x3;
               (x5, g5) = RandomZoom layers g4 x4
           in Inr (x5, g5)))"

text \<open>
  \<^verbatim>\<open>
  if augment:
      ds = ds.map(lambda x, y: (self.data_augmentation(x, training=True), y), num_parallel_calls=self.autotune)
  \<close>
  The batched dataset is the list of its batches, each a pair of an image batch and the
  list of its labels; the stage maps over the batches in order.
\<close>

fun augment_stage ::
    "('g \<Rightarrow> image_batch \<Rightarrow> py_error + image_batch \<times> 'g) \<Rightarrow> (image_batch \<times> 'l list) list \<Rightarrow> 'g \<Rightarrow>
     py_error + (image_batch \<times> 'l list) list \<times> 'g" where
  "augment_stage aug [] g = Inr ([], g)"
| "augment_stage aug ((x, y) # ds) g =
     (case aug g x of
        Inl e \<Rightarrow> Inl e
      | Inr (x', g') \<Rightarrow>
          (case augment_stage aug ds g' of
             Inl e \<Rightarrow> Inl e
           | Inr (ds', g'') \<Rightarrow> Inr ((x', y) # ds', g'')))"

definition shape_preserving :: "('g \<Rightarrow> image_batch \<Rightarrow> image_batch \<times> 'g) \<Rightarrow> bool" where
  "shape_preserving layer = (\<forall>g x. shape_of (fst (layer g x)) = shape_of x)"



lemma stateless_random_brightness_shape:
  assumes "stateless_random_brightness uniform img max_delta seed = Inr out"
  shows "shape_of out = shape_of img"
  using assms
  by (auto simp: stateless_random_brightness_def shape_of_def Let_def comp_def split: if_splits)

lemma RandomBrightness_call_Inr:
  assumes "RandomBrightness_call uniform factor g img = Inr (out, h)"
  shows "h = g \<and> stateless_random_brightness uniform img factor (123, 0) = Inr out"
  using assms by (auto simp: RandomBrightness_call_def split: sum.splits)

lemma RandomBrightness_call_succeeds:
  assumes "0 \<le> factor"
  shows "\<exists>out. RandomBrightness_call uniform factor g img = Inr (out, g)"
  using assms by (simp add: RandomBrightness_call_def stateless_random_brightness_def Let_def)

lemma data_augmentation_shape:
  assumes c: "shape_preserving (RandomContrast layers)" and f: "shape_preserving (RandomFlip layers)"
    and r: "shape_preserving (RandomRotation layers)" and z: "shape_preserving (RandomZoom layers)"
    and ok: "data_augmentation uniform factor layers g x = Inr (x', g')"
  shows "shape_of x' = shape_of x"
proof -
  from ok obtain x1 g1 where b: "RandomBrightness_call uniform factor g x = Inr (x1, g1)"
    by (auto simp: data_augmentation_def split: sum.splits)
  obtain x2 g2 where s2: "RandomContrast layers g1 x1 = (x2, g2)" by (cases "RandomContrast layers g1 x1")
  obtain x3 g3 where s3: "RandomFlip layers g2 x2 = (x3, g3)" by (cases "RandomFlip layers g2 x2")
  obtain x4 g4 where s4: "RandomRotation layers g3 x3 = (x4, g4)" by (cases "RandomRotation layers g3 x3")
  obtain x5 g5 where s5: "RandomZoom layers g4 x4 = (x5, g5)" by (cases "RandomZoom layers g4 x4")
  from ok b s2 s3 s4 s5 have x': "x' = x5"
    by (simp add: data_augmentation_def)
  have "shape_of x1 = shape_of x"
    using RandomBrightness_call_Inr [OF b] stateless_random_brightness_shape by blast
  moreover have "shape_of x2 = shape_of x1"
    using c s2 by (metis fst_conv shape_preserving_def)
  moreover have "shape_of x3 = shape_of x2"
    using f s3 by (metis fst_conv shape_preserving_def)
  moreover have "shape_of x4 = shape_of x3"
    using r s4 by (metis fst_conv shape_preserving_def)
  moreover have "shape_of x5 = shape_of x4"
    using z s5 by (metis fst_conv shape_preserving_def)
  ultimately show ?thesis using x' by simp
qed

lemma data_augmentation_succeeds:
  assumes "0 \<le> factor"
  shows "\<exists>x' g'. data_augmentation uniform factor layers g x = Inr (x', g')"
proof -
  from RandomBrightness_call_succeeds [OF assms, of uniform g x]
  obtain out where "RandomBrightness_call uniform factor g x = Inr (out, g)" by blast
  then show ?thesis
    by (simp add: data_augmentation_def Let_def split: prod.splits)
qed

lemma augment_stage_preserves:
  assumes ok: "\<And>g x. \<exists>x' g'. aug g x = Inr (x', g')"
    and sh: "\<And>g x x' g'. aug g x = Inr (x', g') \<Longrightarrow> shape_of x' = shape_of x"
  shows "\<exists>ds' g'. augment_stage aug ds g = Inr (ds', g')
     \<and> map snd ds' = map snd ds
     \<and> map (shape_of \<circ> fst) ds' = map (shape_of \<circ> fst) ds"
proof (induction ds arbitrary: g)
  case Nil
  show ?case by simp
next
  case (Cons b ds)
  obtain x y where b: "b = (x, y)" by (cases b)
  from ok obtain x' g1 where a: "aug g x = Inr (x', g1)" by blast
  from Cons.IH [of g1] obtain ds' g2 where
    r: "augment_stage aug ds g1 = Inr (ds', g2)" "map snd ds' = map snd ds"
      "map (shape_of \<circ> fst) ds' = map (shape_of \<circ> fst) ds"
    by blast
  have "augment_stage aug (b # ds) g = Inr ((x', y) # ds', g2)"
    using a r(1) b by simp
  moreover have "shape_of x' = shape_of x" using a by (rule sh)
  ultimately show ?case using r(2,3) b by (simp add: comp_def)
qed

lemma shape_of_length: "shape_of a = shape_of b \<Longrightarrow> length a = length b"
  by (metis length_map shape_of_def)


text \<open>
  Claim C8. With a non-negative brightness factor and Keras layers that return a batch
  of the shape they were given, the augmentation stage succeeds on every batched
  dataset and touches the images only: it returns as many batches, in the same order,
  the label list of every batch is unchanged, and every image batch keeps its shape,
  hence its number \<open>N\<close> of images and their spatial dimensions.
\<close>

theorem augmentation_keeps_labels_and_shape:
  assumes "0 \<le> factor"
    and "shape_preserving (RandomContrast layers)" and "shape_preserving (RandomFlip layers)"
    and "shape_preserving (RandomRotation layers)" and "shape_preserving (RandomZoom layers)"
  shows "\<exists>ds' g'. augment_stage (data_augmentation uniform factor layers) ds g = Inr (ds', g')
     \<and> length ds' = length ds
     \<and> map snd ds' = map snd ds
     \<and> map (shape_of \<circ> fst) ds' = map (shape_of \<circ> fst) ds
     \<and> map (length \<circ> fst) ds' = map (length \<circ> fst) ds"
proof -
  have "\<exists>ds' g'. augment_stage (data_augmentation uniform factor layers) ds g = Inr (ds', g')
     \<and> map snd ds' = map snd ds
     \<and> map (shape_of \<circ> fst) ds' = map (shape_of \<circ> fst) ds"
  proof (rule augment_stage_preserves)
    fix g x
    show "\<exists>x' g'. data_augmentation uniform factor layers g x = Inr (x', g')"
      using assms(1) by (rule data_augmentation_succeeds)
  next
    fix g x x' g'
    assume "data_augmentation uniform factor layers g x = Inr (x', g')"
    with assms(2-5) show "shape_of x' = shape_of x"
      by (rule data_augmentation_shape)
  qed
  then obtain ds' g' where
    r: "augment_stage (data_augmentation uniform factor layers) ds g = Inr (ds', g')"
      "map snd ds' = map snd ds" "map (shape_of \<circ> fst) ds' = map (shape_of \<circ> fst) ds"
    by blast
  have len: "length ds' = length ds"
    using r(2) by (metis length_map)
  have "map (length \<circ> fst) ds' = map (length \<circ> fst) ds"
  proof (rule nth_equalityI)
    show "length (map (length \<circ> fst) ds') = length (map (length \<circ> fst) ds)"
      using len by simp
  next
    fix i assume "i < length (map (length \<circ> fst) ds')"
    then have i: "i < length ds'" "i < length ds" using len by simp_all
    then have "shape_of (fst (ds' ! i)) = shape_of (fst (ds ! i))"
      using r(3) by (metis comp_apply nth_map)
    then have "length (fst (ds' ! i)) = length (fst (ds ! i))"
      by (rule shape_of_length)
    then show "map (length \<circ> fst) ds' ! i = map (length \<circ> fst) ds ! i"
      using i by simp
  qed
  with r len show ?thesis
    by (intro exI [of _ ds'] exI [of _ g']) simp
qed


text \<open>
  Stand-ins for the four Keras layers, used to instantiate the theorems: each returns
  its batch unchanged and advances the generator state, a counter, by one.
\<close>

definition counting_layers :: "nat keras_layers" where
  "counting_layers =
     \<lparr>RandomContrast = (\<lambda>g x. (x, Suc g)), RandomFlip = (\<lambda>g x. (x, Suc g)),
      RandomRotation = (\<lambda>g x. (x, Suc g)), RandomZoom = (\<lambda>g x. (x, Suc g))\<rparr>"

theorem augmentation_keeps_labels_and_shape_witness:
  "(0 :: real) \<le> 0.2
   \<and> shape_preserving (RandomContrast counting_layers)
   \<and> shape_preserving (RandomFlip counting_layers)
   \<and> shape_preserving (RandomRotation counting_layers)
   \<and> shape_preserving (RandomZoom counting_layers)
   \<and> augment_stage (data_augmentation (\<lambda>_. 3 / 4) 0.2 counting_layers)
         [([[[[1, 2]], [[3, 4]]]], [''a'']), ([[[[5, 6]], [[7, 8]]]], [''b''])] 0
       = Inr ([([[[[1.1, 2.1]], [[3.1, 4.1]]]], [''a'']), ([[[[5.1, 6.1]], [[7.1, 8.1]]]], [''b''])], 8)"
proof -
  have sp: "shape_preserving (RandomContrast counting_layers)"
    "shape_preserving (RandomFlip counting_layers)"
    "shape_preserving (RandomRotation counting_layers)"
    "shape_preserving (RandomZoom counting_layers)"
    by (simp_all add: shape_preserving_def counting_layers_def)
  have f: "(0 :: real) \<le> 0.2" by simp
  from augmentation_keeps_labels_and_shape [OF f sp,
      of "\<lambda>_. 3 / 4" "[([[[[1, 2]], [[3, 4]]]], [''a'']), ([[[[5, 6]], [[7, 8]]]], [''b''])]" 0]
    sp show ?thesis
    by (simp add: data_augmentation_def RandomBrightness_call_def
        stateless_random_brightness_def counting_layers_def)
qed

text \<open>
  Claim C9. \<open>RandomBrightness.call\<close> is deterministic: its output does not depend on the
  state of the random generator around the call, which it leaves as it was; the output
  is that of \<open>stateless_random_brightness\<close> at the fixed seed pair \<open>(123, 0)\<close>, and of the
  stateless generator only its value at this seed pair matters. Two calls on the same
  image and factor therefore give the same tensor.
\<close>

theorem RandomBrightness_call_deterministic:
  "map_sum id fst (RandomBrightness_call uniform factor g1 img)
     = map_sum id fst (RandomBrightness_call uniform factor g2 img)
   \<and> (\<forall>out h. RandomBrightness_call uniform factor g img = Inr (out, h) \<longrightarrow>
         h = g \<and> stateless_random_brightness uniform img factor (123, 0) = Inr out)
   \<and> (uniform (123, 0) = uniform' (123, 0) \<longrightarrow>
         RandomBrightness_call uniform factor g img = RandomBrightness_call uniform' factor g img)"
  by (auto simp: RandomBrightness_call_def stateless_random_brightness_def Let_def
      split: sum.splits if_splits)

theorem RandomBrightness_call_deterministic_witness:
  "RandomBrightness_call (\<lambda>_. 3 / 4) 0.2 (0 :: nat) [[[[1, 2]]]] = Inr ([[[[1.1, 2.1]]]], 0)
   \<and> RandomBrightness_call (\<lambda>_. 3 / 4) 0.2 (5 :: nat) [[[[1, 2]]]] = Inr ([[[[1.1, 2.1]]]], 5)
   \<and> stateless_random_brightness (\<lambda>_. 3 / 4) [[[[1, 2]]]] 0.2 (123, 0) = Inr [[[[1.1, 2.1]]]]
   \<and> RandomBrightness_call (\<lambda>s. if s = (123, 0) then 3 / 4 else 0) 0.2 (0 :: nat) [[[[1, 2]]]]
       = Inr ([[[[1.1, 2.1]]]], 0)"
  using RandomBrightness_call_deterministic
    [of "\<lambda>_. 3 / 4" "0.2" "0 :: nat" "[[[[1, 2]]]]" 5 0 "\<lambda>s. if s = (123, 0) then 3 / 4 else 0"]
  by (simp add: RandomBrightness_call_def stateless_random_brightness_def)

section \<open>train.py: the cumulative table of a hyperparameter search\<close>

text \<open>
  The results dictionary maps a column name to the list of its cells and keeps the
  order of its keys: an association list. A cell is the trial index as a string
  (\<open>str(trial_idx)\<close>), a number, or the sampled value of a hyperparameter, of a type
  that is left open. The CSV file at a path is represented by the dictionary that
  \<open>pd.read_csv(path).to_dict(orient='list')\<close> reads from it, and a cell is identified
  with its text in the file: what \<open>to_csv\<close> writes is what \<open>read_csv\<close> reads.
\<close>

datatype 'v cell = Text string | Number real | Value 'v

type_synonym 'v results = "(string \<times> 'v cell list) list"

type_synonym 'v files = "string \<Rightarrow> 'v results option"

text \<open>\<open>d[k].append(v)\<close>: \<open>KeyError\<close> when the key is missing.\<close>

definition dict_append :: "'v results \<Rightarrow> string \<Rightarrow> 'v cell \<Rightarrow> py_error + 'v results" where
  "dict_append d k v =
     (case map_of d k of
        None \<Rightarrow> Inl KeyError
      | Some col \<Rightarrow> Inr (map (\<lambda>(k', c). if k' = k then (k', c @ [v]) else (k', c)) d))"

text \<open>
  \<^verbatim>\<open>
  for hparam_name in hparam_names:
      results[hparam_name].append(hparams[hparam_name])
  \<close>
\<close>

fun append_hparams ::
    "'v results \<Rightarrow> string list \<Rightarrow> (string \<times> 'v cell) list \<Rightarrow> py_error + 'v results" where
  "append_hparams results [] hparams = Inr results"
| "append_hparams results (hparam_name # names) hparams =
     (case map_of results hparam_name of
        None \<Rightarrow> Inl KeyError
      | Some col \<Rightarrow>
          (case map_of hparams hparam_name of
             None \<Rightarrow> Inl KeyError
           | Some v \<Rightarrow>
               (case dict_append results hparam_name v of
                  Inl e \<Rightarrow> Inl e
                | Inr results' \<Rightarrow> append_hparams results' names hparams)))"

text \<open>\<open>pd.DataFrame(results)\<close> raises \<open>ValueError\<close> unless all columns have the same length.\<close>

definition rectangular :: "'v results \<Rightarrow> bool" where
  "rectangular d =
     (case d of
        [] \<Rightarrow> True
      | (k, c) # rest \<Rightarrow> list_all (\<lambda>(k', c'). length c' = length c) rest)"

text \<open>
  \<^verbatim>\<open>
  results_path = cfg['PATHS']['EXPERIMENTS'] + 'hparam_search_' + model_name + \
                 cur_datetime + '.csv'
  if os.path.exists(results_path):
      results = pd.read_csv(results_path).to_dict(orient='list')
  else:
      results = init_dict
  trial_idx = len(results['Trial'])
  results['Trial'].append(str(trial_idx))
  results[objective_metric].append(1.0 - score)
  for hparam_name in hparam_names:
      results[hparam_name].append(hparams[hparam_name])

  results_df = pd.DataFrame(results)
  results_df.to_csv(results_path, index_label=False, index=False)
  return results
  \<close>
  The call takes the files on disk and returns them with the results file rewritten.
  When the file does not exist yet, \<open>results\<close> is the caller's \<open>init_dict\<close> itself, which
  the appends change in place: the third component of the result is the caller's
  dictionary after the call. The directory \<open>PATHS.EXPERIMENTS\<close> is taken to exist.
\<close>

definition results_path :: "string \<Rightarrow> string \<Rightarrow> string \<Rightarrow> string" where
  "results_path experiments model_name cur_datetime =
     experiments @ ''hparam_search_'' @ model_name @ cur_datetime @ ''.csv''"

definition save_hparam_search_results ::
    "string \<Rightarrow> 'v files \<Rightarrow> 'v results \<Rightarrow> real \<Rightarrow> string \<Rightarrow> string list \<Rightarrow>
     (string \<times> 'v cell) list \<Rightarrow> string \<Rightarrow> string \<Rightarrow>
     py_error + 'v results \<times> 'v files \<times> 'v results" where
  "save_hparam_search_results experiments files init_dict score objective_metric hparam_names
       hparams model_name cur_datetime =
     (let path = results_path experiments model_name cur_datetime;
          results = (case files path of Some t \<Rightarrow> t | None \<Rightarrow> init_dict)
      in case map_of results ''Trial'' of
           None \<Rightarrow> Inl KeyError
         | Some trial_col \<Rightarrow>
             (let trial_idx = length trial_col
              in case dict_append results ''Trial'' (Text (str_nat trial_idx)) of
                   Inl e \<Rightarrow> Inl e
                 | Inr results1 \<Rightarrow>
                     (case dict_append results1 objective_metric (Number (1 - score)) of
                        Inl e \<Rightarrow> Inl e
                      | Inr results2 \<Rightarrow>
                          (case append_hparams results2 hparam_names hparams of
                             Inl e \<Rightarrow> Inl e
                           | Inr results3 \<Rightarrow>
                               if \<not> rectangular results3 then Inl ValueError
                               else Inr (results3, files(path \<mapsto> results3),
                                         (if files path = None then results3 else init_dict))))))"

text \<open>
  The properties below are about a results table with exactly the columns \<open>Trial\<close>, the
  objective metric and the searched hyperparameters, all of one length, as
  \<open>bayesian_hparam_optimization\<close> builds it. \<open>new_cell\<close> is the cell that a call appends
  to column \<open>k\<close> of a table with \<open>n\<close> rows.
\<close>

definition wf_results :: "'v results \<Rightarrow> string \<Rightarrow> string list \<Rightarrow> bool" where
  "wf_results d objective_metric hparam_names =
     (distinct (map fst d)
      \<and> set (map fst d) = set (''Trial'' # objective_metric # hparam_names)
      \<and> distinct (''Trial'' # objective_metric # hparam_names)
      \<and> rectangular d)"

definition nrows :: "'v results \<Rightarrow> nat" where
  "nrows d = (case d of [] \<Rightarrow> 0 | (k, c) # rest \<Rightarrow> length c)"

definition new_cell :: "nat \<Rightarrow> string \<Rightarrow> real \<Rightarrow> (string \<times> 'v cell) list \<Rightarrow> string \<Rightarrow> 'v cell" where
  "new_cell n objective_metric score hparams k =
     (if k = ''Trial'' then Text (str_nat n)
      else if k = objective_metric then Number (1 - score)
      else the (map_of hparams k))"



text \<open>
  Two devices of the proofs: \<open>ext D new d\<close> is the table \<open>d\<close> with the cell \<open>new k\<close> appended
  to every column \<open>k\<close> of \<open>D\<close>, the state of the table after the appends to the columns
  of \<open>D\<close>; \<open>append_row new d\<close> is \<open>d\<close> with one cell appended to every column.
\<close>

definition ext :: "string set \<Rightarrow> (string \<Rightarrow> 'v cell) \<Rightarrow> 'v results \<Rightarrow> 'v results" where
  "ext D new d = map (\<lambda>(k, c). (k, if k \<in> D then c @ [new k] else c)) d"

lemma ext_empty: "ext {} new d = d"
  by (simp add: ext_def split_def)

lemma map_of_ext_keys: "(map_of (ext D new d) k = None) = (map_of d k = None)"
  by (induction d) (auto simp: ext_def)

lemma dict_append_ext:
  assumes "k \<in> fst ` set d" and "k \<notin> D"
  shows "dict_append (ext D new d) k (new k) = Inr (ext (insert k D) new d)"
proof -
  have "map_of d k \<noteq> None"
    using assms(1) by (simp add: map_of_eq_None_iff)
  then have "map_of (ext D new d) k \<noteq> None"
    by (simp add: map_of_ext_keys)
  then obtain col where "map_of (ext D new d) k = Some col" by blast
  moreover have "map (\<lambda>(k', c). if k' = k then (k', c @ [new k]) else (k', c)) (ext D new d)
      = ext (insert k D) new d"
    using assms(2) by (auto simp: ext_def)
  ultimately show ?thesis by (simp add: dict_append_def)
qed

lemma append_hparams_ext:
  assumes "distinct names" and "set names \<subseteq> fst ` set d" and "set names \<inter> D = {}"
    and "\<forall>n\<in>set names. map_of hparams n = Some (new n)"
  shows "append_hparams (ext D new d) names hparams = Inr (ext (D \<union> set names) new d)"
  using assms
proof (induction names arbitrary: D)
  case Nil
  then show ?case by simp
next
  case (Cons n names)
  have k: "n \<in> fst ` set d" "n \<notin> D" using Cons.prems by auto
  have "map_of d n \<noteq> None" using k(1) by (simp add: map_of_eq_None_iff)
  then have "map_of (ext D new d) n \<noteq> None" by (simp add: map_of_ext_keys)
  then obtain col where col: "map_of (ext D new d) n = Some col" by blast
  have hp: "map_of hparams n = Some (new n)" using Cons.prems by simp
  have da: "dict_append (ext D new d) n (new n) = Inr (ext (insert n D) new d)"
    using k by (rule dict_append_ext)
  have "append_hparams (ext (insert n D) new d) names hparams
      = Inr (ext (insert n D \<union> set names) new d)"
    using Cons.prems by (intro Cons.IH) auto
  then show ?case using col hp da by simp
qed

lemma ext_all:
  assumes "fst ` set d \<subseteq> D"
  shows "ext D new d = map (\<lambda>(k, c). (k, c @ [new k])) d"
  using assms by (auto simp: ext_def)


definition append_row :: "(string \<Rightarrow> 'v cell) \<Rightarrow> 'v results \<Rightarrow> 'v results" where
  "append_row new d = map (\<lambda>(k, c). (k, c @ [new k])) d"

lemma rectangular_iff: "rectangular d = (\<forall>(k, c)\<in>set d. length c = nrows d)"
  by (cases d) (auto simp: rectangular_def nrows_def list_all_iff)

lemma nrows_append_row: "d \<noteq> [] \<Longrightarrow> nrows (append_row new d) = Suc (nrows d)"
  by (cases d) (auto simp: nrows_def append_row_def)

lemma rectangular_append_row: "rectangular d \<Longrightarrow> rectangular (append_row new d)"
  by (cases d) (auto simp: rectangular_def append_row_def list_all_iff)

lemma keys_append_row: "map fst (append_row new d) = map fst d"
  by (simp add: append_row_def split_def comp_def)

lemma wf_results_append_row:
  "wf_results d objective_metric hparam_names \<Longrightarrow>
   wf_results (append_row new d) objective_metric hparam_names"
  unfolding wf_results_def keys_append_row by (simp add: rectangular_append_row)

lemma wf_results_Trial:
  assumes "wf_results d objective_metric hparam_names"
  shows "\<exists>col. map_of d ''Trial'' = Some col \<and> length col = nrows d"
proof -
  have keys: "set (map fst d) = set (''Trial'' # objective_metric # hparam_names)"
    and dist: "distinct (map fst d)" and rect: "rectangular d"
    using assms unfolding wf_results_def by blast+
  have "''Trial'' \<in> set (map fst d)"
    unfolding keys by (simp only: list.set insertI1)
  then obtain col where col: "(''Trial'', col) \<in> set d" by auto
  from dist col have m: "map_of d ''Trial'' = Some col"
    by (rule map_of_is_SomeI)
  from rect col have "length col = nrows d"
    unfolding rectangular_iff by blast
  with m show ?thesis by blast
qed

lemma append_pipeline:
  assumes wf: "wf_results cur objective_metric hparam_names"
    and hp: "\<forall>n\<in>set hparam_names. map_of hparams n \<noteq> None"
  shows "\<exists>col r1 r2. map_of cur ''Trial'' = Some col
     \<and> dict_append cur ''Trial'' (Text (str_nat (length col))) = Inr r1
     \<and> dict_append r1 objective_metric (Number (1 - score)) = Inr r2
     \<and> append_hparams r2 hparam_names hparams
         = Inr (append_row (new_cell (nrows cur) objective_metric score hparams) cur)"
proof -
  define new where "new = new_cell (nrows cur) objective_metric score hparams"
  from wf_results_Trial [OF wf] obtain col where
    col: "map_of cur ''Trial'' = Some col" "length col = nrows cur" by blast
  have keys: "fst ` set cur = set (''Trial'' # objective_metric # hparam_names)"
    and dist: "distinct (''Trial'' # objective_metric # hparam_names)"
    using wf by (simp_all add: wf_results_def)
  have kT: "''Trial'' \<in> fst ` set cur" and kO: "objective_metric \<in> fst ` set cur"
    and kN: "set hparam_names \<subseteq> fst ` set cur"
    unfolding keys by auto
  have ne: "objective_metric \<noteq> ''Trial''" "''Trial'' \<notin> set hparam_names"
    "objective_metric \<notin> set hparam_names" "distinct hparam_names"
    using dist by auto
  have n1: "new ''Trial'' = Text (str_nat (length col))"
    by (simp add: new_def new_cell_def col)
  have n2: "new objective_metric = Number (1 - score)"
    using ne by (simp add: new_def new_cell_def)
  have n3: "\<forall>n\<in>set hparam_names. map_of hparams n = Some (new n)"
  proof
    fix n assume n: "n \<in> set hparam_names"
    then have "n \<noteq> ''Trial''" "n \<noteq> objective_metric" using ne by auto
    moreover from hp n obtain v where "map_of hparams n = Some v" by blast
    ultimately show "map_of hparams n = Some (new n)"
      by (simp add: new_def new_cell_def)
  qed
  have "dict_append (ext {} new cur) ''Trial'' (new ''Trial'') = Inr (ext (insert ''Trial'' {}) new cur)"
    using kT by (rule dict_append_ext) simp
  then have a1: "dict_append cur ''Trial'' (Text (str_nat (length col))) = Inr (ext {''Trial''} new cur)"
    by (simp only: ext_empty n1)
  have "dict_append (ext {''Trial''} new cur) objective_metric (new objective_metric)
      = Inr (ext (insert objective_metric {''Trial''}) new cur)"
    using kO by (rule dict_append_ext) (simp add: ne)
  then have a2: "dict_append (ext {''Trial''} new cur) objective_metric (Number (1 - score))
      = Inr (ext (insert objective_metric {''Trial''}) new cur)"
    by (simp only: n2)
  have a3: "append_hparams (ext (insert objective_metric {''Trial''}) new cur) hparam_names hparams
      = Inr (ext (insert objective_metric {''Trial''} \<union> set hparam_names) new cur)"
    using ne(4) kN _ n3
  proof (rule append_hparams_ext)
    show "set hparam_names \<inter> insert objective_metric {''Trial''} = {}"
      using ne by auto
  qed
  have "fst ` set cur \<subseteq> insert objective_metric {''Trial''} \<union> set hparam_names"
    unfolding keys by auto
  then have a4: "ext (insert objective_metric {''Trial''} \<union> set hparam_names) new cur
      = map (\<lambda>(k, c). (k, c @ [new k])) cur"
    by (rule ext_all)
  have "append_hparams (ext (insert objective_metric {''Trial''}) new cur) hparam_names hparams
      = Inr (append_row new cur)"
    unfolding append_row_def using a3 a4 by simp
  then have "map_of cur ''Trial'' = Some col
     \<and> dict_append cur ''Trial'' (Text (str_nat (length col))) = Inr (ext {''Trial''} new cur)
     \<and> dict_append (ext {''Trial''} new cur) objective_metric (Number (1 - score))
         = Inr (ext (insert objective_metric {''Trial''}) new cur)
     \<and> append_hparams (ext (insert objective_metric {''Trial''}) new cur) hparam_names hparams
         = Inr (append_row new cur)"
    using col(1) a1 a2 by (intro conjI)
  then show ?thesis
    unfolding new_def by (intro exI)
qed

lemma save_hparam_search_results_call:
  assumes cur: "cur = (case files (results_path experiments model_name cur_datetime) of
         Some t \<Rightarrow> t | None \<Rightarrow> init_dict)"
    and wf: "wf_results cur objective_metric hparam_names"
    and hp: "\<forall>n\<in>set hparam_names. map_of hparams n \<noteq> None"
    and r: "r = append_row (new_cell (nrows cur) objective_metric score hparams) cur"
  shows "save_hparam_search_results experiments files init_dict score objective_metric
           hparam_names hparams model_name cur_datetime
     = Inr (r, files(results_path experiments model_name cur_datetime \<mapsto> r),
            (if files (results_path experiments model_name cur_datetime) = None then r
             else init_dict))"
proof -
  from append_pipeline [OF wf hp, of score] obtain col r1 r2 where
    s: "map_of cur ''Trial'' = Some col"
      "dict_append cur ''Trial'' (Text (str_nat (length col))) = Inr r1"
      "dict_append r1 objective_metric (Number (1 - score)) = Inr r2"
      "append_hparams r2 hparam_names hparams = Inr r"
    unfolding r by (elim exE conjE)
  have rect: "rectangular r"
    unfolding r using wf by (simp add: wf_results_def rectangular_append_row)
  show ?thesis
    unfolding save_hparam_search_results_def Let_def cur [symmetric]
    by (simp only: s option.case sum.case rect not_True_eq_False if_False)
qed


lemma map_of_append_row:
  "map_of d k = Some col \<Longrightarrow> map_of (append_row new d) k = Some (col @ [new k])"
  by (induction d) (auto simp: append_row_def)

lemma append_row_twice:
  "append_row new2 (append_row new1 d) = map (\<lambda>(k, c). (k, c @ [new1 k, new2 k])) d"
  by (simp add: append_row_def split_def)

text \<open>
  Claim C7. Let the current results be the table of the results file when it exists
  and \<open>init_dict\<close> otherwise, with \<open>n\<close> recorded trials, and let both hyperparameter
  dictionaries have a value for every searched name. Two calls of
  \<open>save_hparam_search_results\<close> against the same file then both succeed, and the file
  ends up holding every column of the current results extended by the cell of the first
  call and then by the cell of the second: the earlier rows are kept and one row per
  call is added. The trial index of the first appended row is \<open>str(n)\<close>, that of the
  second \<open>str(n + 1)\<close>.
\<close>

theorem save_hparam_search_results_additive:
  assumes wf: "wf_results cur objective_metric hparam_names"
    and cur: "cur = (case files (results_path experiments model_name cur_datetime) of
                      Some t \<Rightarrow> t | None \<Rightarrow> init_dict)"
    and h1: "\<forall>n\<in>set hparam_names. map_of hparams1 n \<noteq> None"
    and h2: "\<forall>n\<in>set hparam_names. map_of hparams2 n \<noteq> None"
  shows "\<exists>r1 files1 init1 r2 files2 init2 col.
      save_hparam_search_results experiments files init_dict score1 objective_metric
          hparam_names hparams1 model_name cur_datetime = Inr (r1, files1, init1)
    \<and> save_hparam_search_results experiments files1 init1 score2 objective_metric
          hparam_names hparams2 model_name cur_datetime = Inr (r2, files2, init2)
    \<and> files2 (results_path experiments model_name cur_datetime) = Some r2
    \<and> r2 = map (\<lambda>(k, c). (k, c @ [new_cell (nrows cur) objective_metric score1 hparams1 k,
                                     new_cell (Suc (nrows cur)) objective_metric score2 hparams2 k]))
              cur
    \<and> nrows r2 = nrows cur + 2
    \<and> map_of cur ''Trial'' = Some col \<and> length col = nrows cur
    \<and> map_of r2 ''Trial'' = Some (col @ [Text (str_nat (nrows cur)), Text (str_nat (Suc (nrows cur)))])"
proof -
  let ?path = "results_path experiments model_name cur_datetime"
  let ?new1 = "new_cell (nrows cur) objective_metric score1 hparams1"
  let ?new2 = "new_cell (Suc (nrows cur)) objective_metric score2 hparams2"
  define r1 where "r1 = append_row ?new1 cur"
  define files1 where "files1 = files(?path \<mapsto> r1)"
  define init1 where "init1 = (if files ?path = None then r1 else init_dict)"
  define r2 where "r2 = append_row ?new2 r1"
  define files2 where "files2 = files1(?path \<mapsto> r2)"
  define init2 where "init2 = (if files1 ?path = None then r2 else init1)"
  from wf_results_Trial [OF wf] obtain col where
    col: "map_of cur ''Trial'' = Some col" "length col = nrows cur" by blast
  then have ne: "cur \<noteq> []" by auto
  have n1: "nrows r1 = Suc (nrows cur)"
    unfolding r1_def using ne by (rule nrows_append_row)
  have ne1: "r1 \<noteq> []"
    using ne by (simp add: r1_def append_row_def)
  have wf1: "wf_results r1 objective_metric hparam_names"
    unfolding r1_def using wf by (rule wf_results_append_row)
  have c1: "save_hparam_search_results experiments files init_dict score1 objective_metric
          hparam_names hparams1 model_name cur_datetime = Inr (r1, files1, init1)"
    unfolding files1_def init1_def using cur wf h1 r1_def
    by (rule save_hparam_search_results_call)
  have cur1: "r1 = (case files1 ?path of Some t \<Rightarrow> t | None \<Rightarrow> init1)"
    by (simp add: files1_def)
  have r2': "r2 = append_row (new_cell (nrows r1) objective_metric score2 hparams2) r1"
    by (simp add: r2_def n1)
  have c2: "save_hparam_search_results experiments files1 init1 score2 objective_metric
          hparam_names hparams2 model_name cur_datetime = Inr (r2, files2, init2)"
    unfolding files2_def init2_def using cur1 wf1 h2 r2'
    by (rule save_hparam_search_results_call)
  have f2: "files2 ?path = Some r2"
    by (simp add: files2_def)
  have e2: "r2 = map (\<lambda>(k, c). (k, c @ [?new1 k, ?new2 k])) cur"
    unfolding r2_def r1_def by (rule append_row_twice)
  have n2: "nrows r2 = nrows cur + 2"
    unfolding r2_def using nrows_append_row [OF ne1, of ?new2] n1 by simp
  have "map_of r1 ''Trial'' = Some (col @ [?new1 ''Trial''])"
    unfolding r1_def using col(1) by (rule map_of_append_row)
  then have "map_of r2 ''Trial'' = Some ((col @ [?new1 ''Trial'']) @ [?new2 ''Trial''])"
    unfolding r2_def by (rule map_of_append_row)
  then have t2: "map_of r2 ''Trial''
      = Some (col @ [Text (str_nat (nrows cur)), Text (str_nat (Suc (nrows cur)))])"
    by (simp add: new_cell_def)
  from c1 c2 f2 e2 n2 col t2 show ?thesis
    by (intro exI [of _ r1] exI [of _ files1] exI [of _ init1] exI [of _ r2]
        exI [of _ files2] exI [of _ init2] exI [of _ col] conjI)
qed


text \<open>The initial dictionary of a search over one hyperparameter, with no trial yet.\<close>

definition example_init_dict :: "nat results" where
  "example_init_dict = [(''Trial'', []), (''accuracy'', []), (''LR'', [])]"

theorem save_hparam_search_results_additive_witness:
  "wf_results example_init_dict ''accuracy'' [''LR'']
   \<and> map_of [(''LR'', Number 0.001 :: nat cell)] ''LR'' \<noteq> None
   \<and> map_of [(''LR'', Number 0.01 :: nat cell)] ''LR'' \<noteq> None
   \<and> (\<exists>r1 files1 init1 r2 files2 init2.
        save_hparam_search_results ''results/'' (\<lambda>_. None) example_init_dict 0.25 ''accuracy''
          [''LR''] [(''LR'', Number 0.001)] ''VGG16'' ''20210101-000000'' = Inr (r1, files1, init1)
      \<and> save_hparam_search_results ''results/'' files1 init1 0.1 ''accuracy''
          [''LR''] [(''LR'', Number 0.01)] ''VGG16'' ''20210101-000000'' = Inr (r2, files2, init2)
      \<and> files2 (results_path ''results/'' ''VGG16'' ''20210101-000000'')
          = Some [(''Trial'', [Text ''0'', Text ''1'']),
                  (''accuracy'', [Number 0.75, Number 0.9]),
                  (''LR'', [Number 0.001, Number 0.01])])"
proof -
  let ?path = "results_path ''results/'' ''VGG16'' ''20210101-000000''"
  have wf: "wf_results example_init_dict ''accuracy'' [''LR'']"
    by (simp add: wf_results_def rectangular_def example_init_dict_def)
  have cur: "example_init_dict
      = (case (\<lambda>_. None) ?path of Some t \<Rightarrow> t | None \<Rightarrow> example_init_dict)"
    by simp
  have h1: "\<forall>n\<in>set [''LR'']. map_of [(''LR'', Number 0.001 :: nat cell)] n \<noteq> None"
    and h2: "\<forall>n\<in>set [''LR'']. map_of [(''LR'', Number 0.01 :: nat cell)] n \<noteq> None"
    by simp_all
  from save_hparam_search_results_additive
    [OF wf cur h1 h2, where ?score1.0 = "0.25" and ?score2.0 = "0.1"
      and experiments = "''results/''" and model_name = "''VGG16''"
      and cur_datetime = "''20210101-000000''"]
  obtain r1 files1 init1 r2 files2 init2 where
    c1: "save_hparam_search_results ''results/'' (\<lambda>_. None) example_init_dict 0.25 ''accuracy''
          [''LR''] [(''LR'', Number 0.001)] ''VGG16'' ''20210101-000000'' = Inr (r1, files1, init1)"
    and c2: "save_hparam_search_results ''results/'' files1 init1 0.1 ''accuracy''
          [''LR''] [(''LR'', Number 0.01)] ''VGG16'' ''20210101-000000'' = Inr (r2, files2, init2)"
    and f2: "files2 ?path = Some r2"
    and r2: "r2 = map (\<lambda>(k, c). (k, c @
          [new_cell (nrows example_init_dict) ''accuracy'' 0.25 [(''LR'', Number 0.001)] k,
           new_cell (Suc (nrows example_init_dict)) ''accuracy'' 0.1 [(''LR'', Number 0.01)] k]))
        example_init_dict"
    by (elim exE conjE)
  have "r2 = [(''Trial'', [Text ''0'', Text ''1'']),
              (''accuracy'', [Number 0.75, Number 0.9]),
              (''LR'', [Number 0.001, Number 0.01])]"
    unfolding r2 by (simp add: example_init_dict_def nrows_def new_cell_def str_nat.simps)
  with f2 have "files2 ?path = Some [(''Trial'', [Text ''0'', Text ''1'']),
              (''accuracy'', [Number 0.75, Number 0.9]),
              (''LR'', [Number 0.001, Number 0.01])]"
    by simp
  with wf c1 c2 show ?thesis
    by (intro conjI exI [of _ r1] exI [of _ files1] exI [of _ init1] exI [of _ r2]
        exI [of _ files2] exI [of _ init2]) simp_all
qed

section \<open>train.py: the summary rows of cross-validation\<close>







definition per_column :: "(real list \<Rightarrow> real) \<Rightarrow> real list list \<Rightarrow> real list" where
  "per_column f rows =
     (case rows of
        [] \<Rightarrow> []
      | r # _ \<Rightarrow> map (\<lambda>j. f (map (\<lambda>v. v ! j) rows)) [0..<length r])"

definition same_width :: "real list list \<Rightarrow> bool" where
  "same_width rows = (case rows of [] \<Rightarrow> True | r # rest \<Rightarrow> list_all (\<lambda>v. length v = length r) rest)"






















lemma length_per_column:
  "same_width vs \<Longrightarrow> v \<in> set vs \<Longrightarrow> length (per_column f vs) = length v"
  by (cases vs) (auto simp: per_column_def same_width_def list_all_iff)
















end
